theory Spec2Isabelle
  imports Main
begin

section \<open>Decoded JSON values\<close>

text \<open>
  The program keeps every remote response as untyped decoded JSON
  (\<^verbatim>\<open>map[string]interface{}\<close>, \<^verbatim>\<open>[]interface{}\<close>, \<^verbatim>\<open>interface{}\<close>).
  \<open>JNull\<close> is the nil interface value, which is also what a slot of a
  freshly made \<^verbatim>\<open>[]interface{}\<close> holds. An object lists its members in
  textual order.
\<close>

datatype json =
    JNull
  | JBool bool
  | JNum int
  | JStr string
  | JArr "json list"
  | JObj "(string \<times> json) list"

text \<open>A Go variable of type \<^verbatim>\<open>map[string]interface{}\<close>; the nil map reads as the empty one.\<close>

type_synonym gomap = "string \<rightharpoonup> json"

text \<open>
  The decoder stores the members of an object into the destination map one by one, in
  textual order, so that the last of two members with one key stays.
\<close>

definition store_members :: "gomap \<Rightarrow> (string \<times> json) list \<Rightarrow> gomap" where
  "store_members m kvs = foldl (\<lambda>acc (k, v). acc(k \<mapsto> v)) m kvs"

text \<open>
  \<^verbatim>\<open>json.NewDecoder(body).Decode(&m)\<close> for a map variable \<open>m\<close>. The body is
  \<open>None\<close> when it is not JSON text at all. A JSON object is stored into the map the
  variable already holds: encoding/json allocates a map only when the variable is nil
  and otherwise reuses the existing map, keeping its entries. \<^verbatim>\<open>null\<close> sets the
  variable to the nil map; every other JSON value is a decode error.
\<close>

fun decode_into :: "gomap \<Rightarrow> json option \<Rightarrow> gomap option" where
  "decode_into m None = None"
| "decode_into m (Some (JObj kvs)) = Some (store_members m kvs)"
| "decode_into m (Some JNull) = Some Map.empty"
| "decode_into m (Some _) = None"

text \<open>The type assertions \<^verbatim>\<open>v.(string)\<close>, \<^verbatim>\<open>v.([]interface{})\<close> and
  \<^verbatim>\<open>v.(map[string]interface{})\<close> on a map entry; a missing key reads as nil.\<close>

fun as_string :: "json option \<Rightarrow> string option" where
  "as_string (Some (JStr s)) = Some s"
| "as_string _ = None"

fun as_array :: "json option \<Rightarrow> json list option" where
  "as_array (Some (JArr xs)) = Some xs"
| "as_array _ = None"

fun as_map :: "json option \<Rightarrow> gomap option" where
  "as_map (Some (JObj kvs)) = Some (store_members Map.empty kvs)"
| "as_map _ = None"

section \<open>The HTTP client\<close>

datatype request = GET string | POST string json | DELETE string

record response =
  status :: nat
  body :: "json option"

text \<open>
  The remote side is any state machine that answers a request; \<open>None\<close> is the
  \<^verbatim>\<open>err != nil\<close> of \<^verbatim>\<open>client.Get\<close>, \<^verbatim>\<open>client.Do\<close> and
  \<^verbatim>\<open>http.NewRequest\<close>. Every request the program hands to the client is
  recorded in \<open>trace\<close>.
\<close>

type_synonym 's transport = "request \<Rightarrow> 's \<Rightarrow> response option \<times> 's"

record 's world =
  remote :: 's
  trace :: "request list"

definition client_do :: "'s transport \<Rightarrow> request \<Rightarrow> 's world \<Rightarrow> response option \<times> 's world" where
  "client_do tr req w =
     (case tr req (remote w) of
        (r, s') \<Rightarrow> (r, w\<lparr>remote := s', trace := trace w @ [req]\<rparr>))"

text \<open>
  What stops a call or the run: an error value returned by a function (and passed to
  \<^verbatim>\<open>log.Fatalln\<close> by \<open>main\<close>), a \<^verbatim>\<open>log.Fatalf\<close> of \<open>main\<close>
  itself, a panic of an unchecked type assertion, or a loop that is still running when
  the fuel is used up.
\<close>

datatype failure =
    TransportError
  | DecodeError
  | Unexpected string
  | DeleteFailed nat
  | Fatal string
  | Panic
  | StillRunning

section \<open>Paged retrieval\<close>

text \<open>
  The loop \<^verbatim>\<open>for next != nil\<close> of \<^verbatim>\<open>EnumerateCurrentUsersPlaylists\<close> and
  \<^verbatim>\<open>EnumerateUsersSavedTracks\<close> (the two bodies differ in the first URL and in the
  name of the map variable only). \<open>m\<close> is the map variable, which every
  \<^verbatim>\<open>Decode\<close> of the loop writes into again; \<^verbatim>\<open>next.(string)\<close> is unchecked.
\<close>

fun fetch_rest ::
  "'s transport \<Rightarrow> nat \<Rightarrow> gomap \<Rightarrow> json list \<Rightarrow> json \<Rightarrow> 's world \<Rightarrow> (failure + json list) \<times> 's world"
where
  "fetch_rest tr 0 m items nxt w =
     (if nxt = JNull then (Inr items, w) else (Inl StillRunning, w))"
| "fetch_rest tr (Suc fuel) m items nxt w =
     (if nxt = JNull then (Inr items, w)
      else
        (case as_string (Some nxt) of
           None \<Rightarrow> (Inl Panic, w)
         | Some url \<Rightarrow>
             (case client_do tr (GET url) w of
                (None, w') \<Rightarrow> (Inl TransportError, w')
              | (Some resp, w') \<Rightarrow>
                  (case decode_into m (body resp) of
                     None \<Rightarrow> (Inl DecodeError, w')
                   | Some m' \<Rightarrow>
                       (case as_array (m' ''items'') of
                          None \<Rightarrow> (Inl (Unexpected ''items''), w')
                        | Some nextItems \<Rightarrow>
                            (case m' ''next'' of
                               None \<Rightarrow> (Inl (Unexpected ''next''), w')
                             | Some nxt' \<Rightarrow>
                                 fetch_rest tr fuel m' (items @ nextItems) nxt' w'))))))"

definition enumerate_pages ::
  "'s transport \<Rightarrow> nat \<Rightarrow> string \<Rightarrow> 's world \<Rightarrow> (failure + json list) \<times> 's world"
where
  "enumerate_pages tr fuel url w =
     (case client_do tr (GET url) w of
        (None, w') \<Rightarrow> (Inl TransportError, w')
      | (Some resp, w') \<Rightarrow>
          (case decode_into Map.empty (body resp) of
             None \<Rightarrow> (Inl DecodeError, w')
           | Some m \<Rightarrow>
               (case as_array (m ''items'') of
                  None \<Rightarrow> (Inl (Unexpected ''items''), w')
                | Some items \<Rightarrow>
                    (case m ''next'' of
                       None \<Rightarrow> (Inl (Unexpected ''next''), w')
                     | Some nxt \<Rightarrow> fetch_rest tr fuel m items nxt w'))))"

definition EnumerateCurrentUsersPlaylists ::
  "'s transport \<Rightarrow> nat \<Rightarrow> 's world \<Rightarrow> (failure + json list) \<times> 's world"
where
  "EnumerateCurrentUsersPlaylists tr fuel w =
     enumerate_pages tr fuel ''https://api.spotify.com/v1/me/playlists'' w"

definition EnumerateUsersSavedTracks ::
  "'s transport \<Rightarrow> nat \<Rightarrow> 's world \<Rightarrow> (failure + json list) \<times> 's world"
where
  "EnumerateUsersSavedTracks tr fuel w =
     enumerate_pages tr fuel ''https://api.spotify.com/v1/me/tracks'' w"

section \<open>Single calls\<close>

text \<open>\<^verbatim>\<open>GetPlaylist\<close> and \<^verbatim>\<open>GetCurrentUsersProfile\<close>: one GET, the body decoded
  into a fresh map; the status code is not looked at.\<close>

definition playlist_url :: "string \<Rightarrow> string" where
  "playlist_url playlistId = ''https://api.spotify.com/v1/playlists/'' @ playlistId"

definition get_object ::
  "'s transport \<Rightarrow> string \<Rightarrow> 's world \<Rightarrow> (failure + gomap) \<times> 's world"
where
  "get_object tr url w =
     (case client_do tr (GET url) w of
        (None, w') \<Rightarrow> (Inl TransportError, w')
      | (Some resp, w') \<Rightarrow>
          (case decode_into Map.empty (body resp) of
             None \<Rightarrow> (Inl DecodeError, w')
           | Some m \<Rightarrow> (Inr m, w')))"

definition GetPlaylist ::
  "'s transport \<Rightarrow> string \<Rightarrow> 's world \<Rightarrow> (failure + gomap) \<times> 's world"
where
  "GetPlaylist tr playlistId w = get_object tr (playlist_url playlistId) w"

definition GetCurrentUsersProfile ::
  "'s transport \<Rightarrow> 's world \<Rightarrow> (failure + gomap) \<times> 's world"
where
  "GetCurrentUsersProfile tr w = get_object tr ''https://api.spotify.com/v1/me'' w"

text \<open>\<^verbatim>\<open>AddItemsToPlaylist\<close>: the request is built and sent whatever \<open>uris\<close> holds;
  once \<^verbatim>\<open>client.Do\<close> has returned a response the function returns nil.\<close>

definition add_items_request :: "string \<Rightarrow> string list \<Rightarrow> request" where
  "add_items_request playlistId uris =
     POST (playlist_url playlistId @ ''/tracks'') (JObj [(''uris'', JArr (map JStr uris))])"

definition AddItemsToPlaylist ::
  "'s transport \<Rightarrow> string \<Rightarrow> string list \<Rightarrow> 's world \<Rightarrow> (failure + unit) \<times> 's world"
where
  "AddItemsToPlaylist tr playlistId uris w =
     (case client_do tr (add_items_request playlistId uris) w of
        (None, w') \<Rightarrow> (Inl TransportError, w')
      | (Some resp, w') \<Rightarrow> (Inr (), w'))"

text \<open>\<^verbatim>\<open>CreatePlaylist\<close>: the body of whatever response arrives is decoded and
  returned (\<^verbatim>\<open>json.Marshal\<close> writes the keys of a map in sorted order).\<close>

definition create_request :: "string \<Rightarrow> string \<Rightarrow> bool \<Rightarrow> bool \<Rightarrow> string \<Rightarrow> request" where
  "create_request userId name public collaborative description =
     POST (''https://api.spotify.com/v1/users/'' @ userId @ ''/playlists'')
       (JObj [(''collaborative'', JBool collaborative), (''description'', JStr description),
              (''name'', JStr name), (''public'', JBool public)])"

definition CreatePlaylist ::
  "'s transport \<Rightarrow> string \<Rightarrow> string \<Rightarrow> bool \<Rightarrow> bool \<Rightarrow> string \<Rightarrow> 's world
     \<Rightarrow> (failure + gomap) \<times> 's world"
where
  "CreatePlaylist tr userId name public collaborative description w =
     (case client_do tr (create_request userId name public collaborative description) w of
        (None, w') \<Rightarrow> (Inl TransportError, w')
      | (Some resp, w') \<Rightarrow>
          (case decode_into Map.empty (body resp) of
             None \<Rightarrow> (Inl DecodeError, w')
           | Some playlist \<Rightarrow> (Inr playlist, w')))"

text \<open>\<^verbatim>\<open>DeletePlaylist\<close>: the one call that compares the status code, with 200.\<close>

definition DeletePlaylist ::
  "'s transport \<Rightarrow> string \<Rightarrow> 's world \<Rightarrow> (failure + unit) \<times> 's world"
where
  "DeletePlaylist tr playlistId w =
     (case client_do tr (DELETE (playlist_url playlistId @ ''/followers'')) w of
        (None, w') \<Rightarrow> (Inl TransportError, w')
      | (Some resp, w') \<Rightarrow>
          (if status resp \<noteq> 200 then (Inl (DeleteFailed (status resp)), w') else (Inr (), w')))"

section \<open>Reversing the saved tracks\<close>

text \<open>
  \<^verbatim>\<open>for i, j := 0, len(tracks)-1; i < j; i, j = i+1, j-1\<close>, writing
  \<^verbatim>\<open>reverseTracks[i], reverseTracks[j] = tracks[j], tracks[i]\<close>. An index out of range
  would panic.
\<close>

function reverse_loop :: "json list \<Rightarrow> json list \<Rightarrow> int \<Rightarrow> int \<Rightarrow> failure + json list" where
  "reverse_loop tracks reverseTracks i j =
     (if i < j then
        (if 0 \<le> i \<and> j < int (length tracks) \<and> j < int (length reverseTracks) then
           reverse_loop tracks
             (reverseTracks[nat i := tracks ! nat j, nat j := tracks ! nat i]) (i + 1) (j - 1)
         else Inl Panic)
      else Inr reverseTracks)"
  by pat_completeness auto
termination
  by (relation "measure (\<lambda>(tracks, reverseTracks, i, j). nat (j - i))") auto

text \<open>\<^verbatim>\<open>make([]interface{}, len(tracks))\<close> is a slice of nil values.\<close>

definition reverse_tracks :: "json list \<Rightarrow> failure + json list" where
  "reverse_tracks tracks =
     reverse_loop tracks (replicate (length tracks) JNull) 0 (int (length tracks) - 1)"

section \<open>Timestamps and month labels\<close>

text \<open>
  \<^verbatim>\<open>time.Parse(time.RFC3339, addedAt)\<close> and \<^verbatim>\<open>t.Format("January '06")\<close> belong to Go's
  standard library. The model follows the layout-driven parser of package time for the
  layout \<^verbatim>\<open>2006-01-02T15:04:05Z07:00\<close>, element by element. The value it returns
  reads its calendar fields in the zone whose offset the text gives (UTC for \<^verbatim>\<open>Z\<close>),
  and \<^verbatim>\<open>Format\<close> prints the fields of that same zone; \<open>main\<close> converts the value
  to no other zone in between.
\<close>

record gotime =
  t_year :: nat
  t_month :: nat
  t_day :: nat
  t_hour :: nat
  t_minute :: nat
  t_second :: nat
  t_offset :: int

definition is_digit :: "char \<Rightarrow> bool" where
  "is_digit c = (48 \<le> (of_char c :: nat) \<and> (of_char c :: nat) \<le> 57)"

definition digit_val :: "char \<Rightarrow> nat" where
  "digit_val c = of_char c - 48"

text \<open>\<^verbatim>\<open>getnum(s, fixed)\<close>: one or two digits, exactly two when \<open>fixed\<close>.\<close>

fun getnum :: "string \<Rightarrow> bool \<Rightarrow> (nat \<times> string) option" where
  "getnum [] fixed = None"
| "getnum [c] fixed =
     (if is_digit c \<and> \<not> fixed then Some (digit_val c, []) else None)"
| "getnum (c # d # rest) fixed =
     (if \<not> is_digit c then None
      else if \<not> is_digit d then (if fixed then None else Some (digit_val c, d # rest))
      else Some (digit_val c * 10 + digit_val d, rest))"

text \<open>The four-digit year of \<^verbatim>\<open>2006\<close>.\<close>

fun get_year :: "string \<Rightarrow> (nat \<times> string) option" where
  "get_year (a # b # c # d # rest) =
     (if is_digit a \<and> is_digit b \<and> is_digit c \<and> is_digit d
      then Some (digit_val a * 1000 + digit_val b * 100 + digit_val c * 10 + digit_val d, rest)
      else None)"
| "get_year _ = None"

text \<open>A literal character of the layout.\<close>

fun skip_char :: "char \<Rightarrow> string \<Rightarrow> string option" where
  "skip_char c [] = None"
| "skip_char c (x # rest) = (if x = c then Some rest else None)"

text \<open>A fractional second may follow the seconds although the layout has none:
  a comma or period, a digit, and the digits after it.\<close>

fun skip_fraction :: "string \<Rightarrow> string" where
  "skip_fraction (p # d # rest) =
     (if (p = CHR ''.'' \<or> p = CHR '','') \<and> is_digit d then dropWhile is_digit rest
      else p # d # rest)"
| "skip_fraction s = s"

text \<open>The zone of \<^verbatim>\<open>Z07:00\<close>: \<^verbatim>\<open>Z\<close>, or a sign, two digits, a colon, two
  digits; the offset in seconds east of UTC.\<close>

fun get_zone :: "string \<Rightarrow> (int \<times> string) option" where
  "get_zone [] = None"
| "get_zone (z # rest) =
     (if z = CHR ''Z'' then Some (0, rest)
      else
        (case rest of
           h1 # h2 # colon # m1 # m2 # rest' \<Rightarrow>
             (if colon \<noteq> CHR '':'' then None
              else
                (case getnum [h1, h2] True of
                   None \<Rightarrow> None
                 | Some (hr, _) \<Rightarrow>
                     (case getnum [m1, m2] True of
                        None \<Rightarrow> None
                      | Some (mm, _) \<Rightarrow>
                          (if hr > 24 \<or> mm > 60 then None
                           else if z = CHR ''+'' then Some (int ((hr * 60 + mm) * 60), rest')
                           else if z = CHR ''-'' then Some (- int ((hr * 60 + mm) * 60), rest')
                           else None))))
         | _ \<Rightarrow> None))"

definition is_leap :: "nat \<Rightarrow> bool" where
  "is_leap y = (y mod 4 = 0 \<and> (y mod 100 \<noteq> 0 \<or> y mod 400 = 0))"

definition days_in :: "nat \<Rightarrow> nat \<Rightarrow> nat" where
  "days_in m y =
     (if m = 2 then (if is_leap y then 29 else 28)
      else if m = 4 \<or> m = 6 \<or> m = 9 \<or> m = 11 then 30 else 31)"

text \<open>The date part \<^verbatim>\<open>2006-01-02\<close>: year, month (range checked at once) and day.\<close>

definition parse_date :: "string \<Rightarrow> ((nat \<times> nat \<times> nat) \<times> string) option" where
  "parse_date s =
     (case get_year s of
        None \<Rightarrow> None
      | Some (year, s1) \<Rightarrow>
          (case skip_char CHR ''-'' s1 of
             None \<Rightarrow> None
           | Some s2 \<Rightarrow>
               (case getnum s2 True of
                  None \<Rightarrow> None
                | Some (month, s3) \<Rightarrow>
                    (if month = 0 \<or> 12 < month then None
                     else
                       (case skip_char CHR ''-'' s3 of
                          None \<Rightarrow> None
                        | Some s4 \<Rightarrow>
                            (case getnum s4 True of
                               None \<Rightarrow> None
                             | Some (day, s5) \<Rightarrow> Some ((year, month, day), s5)))))))"

text \<open>The clock part \<^verbatim>\<open>15:04:05\<close>: the hour may have one digit.\<close>

definition parse_clock :: "string \<Rightarrow> ((nat \<times> nat \<times> nat) \<times> string) option" where
  "parse_clock s =
     (case getnum s False of
        None \<Rightarrow> None
      | Some (hour, s1) \<Rightarrow>
          (if 24 \<le> hour then None
           else
             (case skip_char CHR '':'' s1 of
                None \<Rightarrow> None
              | Some s2 \<Rightarrow>
                  (case getnum s2 True of
                     None \<Rightarrow> None
                   | Some (minute, s3) \<Rightarrow>
                       (if 60 \<le> minute then None
                        else
                          (case skip_char CHR '':'' s3 of
                             None \<Rightarrow> None
                           | Some s4 \<Rightarrow>
                               (case getnum s4 True of
                                  None \<Rightarrow> None
                                | Some (second, s5) \<Rightarrow>
                                    (if 60 \<le> second then None
                                     else Some ((hour, minute, second), skip_fraction s5)))))))))"

text \<open>The whole layout; text left over is an error, and the day is checked against
  the month and year last.\<close>

definition time_Parse :: "string \<Rightarrow> gotime option" where
  "time_Parse s =
     (case parse_date s of
        None \<Rightarrow> None
      | Some ((year, month, day), s1) \<Rightarrow>
          (case skip_char CHR ''T'' s1 of
             None \<Rightarrow> None
           | Some s2 \<Rightarrow>
               (case parse_clock s2 of
                  None \<Rightarrow> None
                | Some ((hour, minute, second), s3) \<Rightarrow>
                    (case get_zone s3 of
                       None \<Rightarrow> None
                     | Some (offset, s4) \<Rightarrow>
                         (if s4 \<noteq> [] then None
                          else if day < 1 \<or> day > days_in month year then None
                          else Some \<lparr>t_year = year, t_month = month, t_day = day,
                                     t_hour = hour, t_minute = minute, t_second = second,
                                     t_offset = offset\<rparr>)))))"

definition month_name :: "nat \<Rightarrow> string" where
  "month_name m =
     [''January'', ''February'', ''March'', ''April'', ''May'', ''June'', ''July'',
      ''August'', ''September'', ''October'', ''November'', ''December''] ! (m - 1)"

definition digit_char :: "nat \<Rightarrow> char" where
  "digit_char d = ''0123456789'' ! (d mod 10)"

text \<open>\<^verbatim>\<open>Format("January '06")\<close>: the full month name, a space, an apostrophe and
  the year modulo 100 on two digits.\<close>

definition time_Format :: "gotime \<Rightarrow> string" where
  "time_Format t =
     month_name (t_month t) @ [CHR '' '', CHR 0x27,
       digit_char (t_year t mod 100 div 10), digit_char (t_year t mod 10)]"

section \<open>Bucketing by month and resolving the playlists\<close>

text \<open>\<^verbatim>\<open>playlistMap\<close> (label to playlist id) and \<^verbatim>\<open>tracksByMonth\<close> (label to the
  pending URIs); reading a missing key gives the zero value.\<close>

type_synonym playlist_ids = "string \<rightharpoonup> string"
type_synonym buckets = "string \<rightharpoonup> string list"

definition bucket_of :: "buckets \<Rightarrow> string \<Rightarrow> string list" where
  "bucket_of tracksByMonth month = (case tracksByMonth month of None \<Rightarrow> [] | Some uris \<Rightarrow> uris)"

text \<open>
  The search \<^verbatim>\<open>for _, playlist := range playlists\<close>: an element that is no object is
  fatal, a name that is no string is logged and read as the empty string, and the first
  element whose name equals the label ends the search with its id (asserted to be a
  string without a check).
\<close>

fun find_playlist :: "json list \<Rightarrow> string \<Rightarrow> failure + string option" where
  "find_playlist [] target = Inr None"
| "find_playlist (playlist # rest) target =
     (case as_map (Some playlist) of
        None \<Rightarrow> Inl (Fatal ''playlist'')
      | Some plMap \<Rightarrow>
          (if (case as_string (plMap ''name'') of None \<Rightarrow> [] | Some n \<Rightarrow> n) = target then
             (case as_string (plMap ''id'') of None \<Rightarrow> Inl Panic | Some i \<Rightarrow> Inr (Some i))
           else find_playlist rest target))"

text \<open>The block \<^verbatim>\<open>if _, exists := playlistMap[targetPlaylistName]; !exists\<close>.\<close>

definition resolve_playlist ::
  "'s transport \<Rightarrow> string \<Rightarrow> json list \<Rightarrow> string \<Rightarrow> playlist_ids \<Rightarrow> 's world
     \<Rightarrow> (failure + playlist_ids) \<times> 's world"
where
  "resolve_playlist tr userId playlists target playlistMap w =
     (case playlistMap target of
        Some _ \<Rightarrow> (Inr playlistMap, w)
      | None \<Rightarrow>
          (case find_playlist playlists target of
             Inl e \<Rightarrow> (Inl e, w)
           | Inr (Some playlistId) \<Rightarrow> (Inr (playlistMap(target \<mapsto> playlistId)), w)
           | Inr None \<Rightarrow>
               (case CreatePlaylist tr userId target True False [] w of
                  (Inl e, w') \<Rightarrow> (Inl e, w')
                | (Inr playlist, w') \<Rightarrow>
                    (case as_string (playlist ''id'') of
                       None \<Rightarrow> (Inl Panic, w')
                     | Some playlistId \<Rightarrow> (Inr (playlistMap(target \<mapsto> playlistId)), w')))))"

text \<open>What the loop body reads from one saved track: the label and the URI.\<close>

definition track_label_uri :: "json \<Rightarrow> failure + (string \<times> string)" where
  "track_label_uri track =
     (case as_map (Some track) of
        None \<Rightarrow> Inl (Fatal ''track'')
      | Some trackMap \<Rightarrow>
          (case as_string (trackMap ''added_at'') of
             None \<Rightarrow> Inl (Fatal ''added_at'')
           | Some addedAt \<Rightarrow>
               (case as_map (trackMap ''track'') of
                  None \<Rightarrow> Inl Panic
                | Some inner \<Rightarrow>
                    (case time_Parse addedAt of
                       None \<Rightarrow> Inl (Fatal ''time'')
                     | Some t \<Rightarrow>
                         (case as_string (inner ''uri'') of
                            None \<Rightarrow> Inl Panic
                          | Some uri \<Rightarrow> Inr (time_Format t, uri))))))"

text \<open>The body of \<^verbatim>\<open>for _, track := range reverseTracks\<close>.\<close>

definition bucket_track ::
  "'s transport \<Rightarrow> string \<Rightarrow> json list \<Rightarrow> json \<Rightarrow> playlist_ids \<times> buckets \<Rightarrow> 's world
     \<Rightarrow> (failure + playlist_ids \<times> buckets) \<times> 's world"
where
  "bucket_track tr userId playlists track st w =
     (case track_label_uri track of
        Inl e \<Rightarrow> (Inl e, w)
      | Inr (target, uri) \<Rightarrow>
          (case resolve_playlist tr userId playlists target (fst st) w of
             (Inl e, w') \<Rightarrow> (Inl e, w')
           | (Inr playlistMap, w') \<Rightarrow>
               (Inr (playlistMap, (snd st)(target \<mapsto> bucket_of (snd st) target @ [uri])), w')))"

fun bucket_tracks ::
  "'s transport \<Rightarrow> string \<Rightarrow> json list \<Rightarrow> json list \<Rightarrow> playlist_ids \<times> buckets \<Rightarrow> 's world
     \<Rightarrow> (failure + playlist_ids \<times> buckets) \<times> 's world"
where
  "bucket_tracks tr userId playlists [] st w = (Inr st, w)"
| "bucket_tracks tr userId playlists (track # rest) st w =
     (case bucket_track tr userId playlists track st w of
        (Inl e, w') \<Rightarrow> (Inl e, w')
      | (Inr st', w') \<Rightarrow> bucket_tracks tr userId playlists rest st' w')"

section \<open>Appending what is missing\<close>

text \<open>\<^verbatim>\<open>existingTracks\<close>, filled from the items of the get-playlist response.\<close>

fun mark_existing :: "json list \<Rightarrow> (string \<rightharpoonup> bool) \<Rightarrow> failure + (string \<rightharpoonup> bool)" where
  "mark_existing [] existingTracks = Inr existingTracks"
| "mark_existing (item # items) existingTracks =
     (case as_map (Some item) of
        None \<Rightarrow> Inl (Fatal ''item'')
      | Some itemMap \<Rightarrow>
          (case as_map (itemMap ''track'') of
             None \<Rightarrow> Inl (Fatal ''track'')
           | Some trackMap \<Rightarrow>
               (case as_string (trackMap ''uri'') of
                  None \<Rightarrow> Inl Panic
                | Some uri \<Rightarrow> mark_existing items (existingTracks(uri \<mapsto> True)))))"

definition is_existing :: "(string \<rightharpoonup> bool) \<Rightarrow> string \<Rightarrow> bool" where
  "is_existing existingTracks uri = (case existingTracks uri of None \<Rightarrow> False | Some b \<Rightarrow> b)"

text \<open>The loop that fills \<^verbatim>\<open>newUris\<close>.\<close>

fun collect_new :: "(string \<rightharpoonup> bool) \<Rightarrow> string list \<Rightarrow> string list \<Rightarrow> string list" where
  "collect_new existingTracks [] newUris = newUris"
| "collect_new existingTracks (uri # uris) newUris =
     collect_new existingTracks uris
       (if \<not> is_existing existingTracks uri then newUris @ [uri] else newUris)"

text \<open>From the decoded playlist to \<^verbatim>\<open>newUris\<close>: only
  \<^verbatim>\<open>playlist["tracks"]["items"]\<close> is read.\<close>

definition compute_delta :: "gomap \<Rightarrow> string list \<Rightarrow> failure + string list" where
  "compute_delta playlist uris =
     (case as_map (playlist ''tracks'') of
        None \<Rightarrow> Inl (Fatal ''tracks'')
      | Some tracks \<Rightarrow>
          (case as_array (tracks ''items'') of
             None \<Rightarrow> Inl (Fatal ''items'')
           | Some items \<Rightarrow>
               (case mark_existing items Map.empty of
                  Inl e \<Rightarrow> Inl e
                | Inr existingTracks \<Rightarrow> Inr (collect_new existingTracks uris []))))"

text \<open>The body of \<^verbatim>\<open>for month, uris := range tracksByMonth\<close>.\<close>

definition sync_month ::
  "'s transport \<Rightarrow> playlist_ids \<Rightarrow> string \<Rightarrow> string list \<Rightarrow> 's world \<Rightarrow> (failure + unit) \<times> 's world"
where
  "sync_month tr playlistMap month uris w =
     (if length uris > 0 then
        (case GetPlaylist tr (case playlistMap month of None \<Rightarrow> [] | Some i \<Rightarrow> i) w of
           (Inl e, w') \<Rightarrow> (Inl e, w')
         | (Inr playlist, w') \<Rightarrow>
             (case compute_delta playlist uris of
                Inl e \<Rightarrow> (Inl e, w')
              | Inr newUris \<Rightarrow>
                  (if length newUris > 0 then
                     AddItemsToPlaylist tr
                       (case playlistMap month of None \<Rightarrow> [] | Some i \<Rightarrow> i) newUris w'
                   else (Inr (), w'))))
      else (Inr (), w))"

text \<open>The range loop visits the keys of the map in an order the language leaves open;
  \<open>visit\<close> is that order.\<close>

fun sync_months ::
  "'s transport \<Rightarrow> playlist_ids \<Rightarrow> buckets \<Rightarrow> string list \<Rightarrow> 's world \<Rightarrow> (failure + unit) \<times> 's world"
where
  "sync_months tr playlistMap tracksByMonth [] w = (Inr (), w)"
| "sync_months tr playlistMap tracksByMonth (month # rest) w =
     (case sync_month tr playlistMap month (bucket_of tracksByMonth month) w of
        (Inl e, w') \<Rightarrow> (Inl e, w')
      | (Inr u, w') \<Rightarrow> sync_months tr playlistMap tracksByMonth rest w')"

section \<open>The run\<close>

text \<open>\<open>main\<close> from the profile request on. \<open>order\<close> gives the keys of
  \<^verbatim>\<open>tracksByMonth\<close> in the order the last loop visits them.\<close>

definition bucket_phase ::
  "'s transport \<Rightarrow> nat \<Rightarrow> 's world \<Rightarrow> (failure + playlist_ids \<times> buckets) \<times> 's world"
where
  "bucket_phase tr fuel w =
     (case GetCurrentUsersProfile tr w of
        (Inl e, w1) \<Rightarrow> (Inl e, w1)
      | (Inr profile, w1) \<Rightarrow>
          (case as_string (profile ''id'') of
             None \<Rightarrow> (Inl (Fatal ''id''), w1)
           | Some userId \<Rightarrow>
               (case EnumerateCurrentUsersPlaylists tr fuel w1 of
                  (Inl e, w2) \<Rightarrow> (Inl e, w2)
                | (Inr playlists, w2) \<Rightarrow>
                    (case EnumerateUsersSavedTracks tr fuel w2 of
                       (Inl e, w3) \<Rightarrow> (Inl e, w3)
                     | (Inr tracks, w3) \<Rightarrow>
                         (case reverse_tracks tracks of
                            Inl e \<Rightarrow> (Inl e, w3)
                          | Inr reverseTracks \<Rightarrow>
                              bucket_tracks tr userId playlists reverseTracks
                                (Map.empty, Map.empty) w3)))))"

definition sync ::
  "'s transport \<Rightarrow> nat \<Rightarrow> (buckets \<Rightarrow> string list) \<Rightarrow> 's world \<Rightarrow> (failure + unit) \<times> 's world"
where
  "sync tr fuel order w =
     (case bucket_phase tr fuel w of
        (Inl e, w') \<Rightarrow> (Inl e, w')
      | (Inr st, w') \<Rightarrow> sync_months tr (fst st) (snd st) (order (snd st)) w')"

section \<open>The credential\<close>

text \<open>\<^verbatim>\<open>oauth2.Token\<close> and the file at the fixed path: missing, not decodable, or
  holding a token.\<close>

record token =
  access_token :: string
  token_type :: string
  refresh_token :: string
  expiry :: nat

datatype token_file = Missing | Garbled | Stored token

text \<open>What the surroundings of a run decide: whether \<^verbatim>\<open>godotenv.Load\<close> and
  \<^verbatim>\<open>os.UserConfigDir\<close> succeed, the code read by \<^verbatim>\<open>fmt.Scan\<close>, the answer of
  \<^verbatim>\<open>config.Exchange\<close>, the answer of \<^verbatim>\<open>tokenSource.Token()\<close> (the token it was
  made from while that is valid, a refreshed one otherwise) and whether the file can be
  created and written.\<close>

datatype disk = DiskOk | CannotCreate | CannotWrite

record env =
  dotenv_loaded :: bool
  config_dir_found :: bool
  scanned_code :: "string option"
  exchange :: "string \<Rightarrow> token option"
  token_source :: "token \<Rightarrow> token option"
  disk :: disk

definition ReadTokenFromPath :: "token_file \<Rightarrow> failure + token" where
  "ReadTokenFromPath f =
     (case f of
        Missing \<Rightarrow> Inl (Fatal ''open'')
      | Garbled \<Rightarrow> Inl DecodeError
      | Stored t \<Rightarrow> Inr t)"

text \<open>\<^verbatim>\<open>WriteTokenToPath\<close>: \<^verbatim>\<open>os.Create\<close> truncates the file before the token is
  encoded into it.\<close>

definition WriteTokenToPath :: "disk \<Rightarrow> token \<Rightarrow> token_file \<Rightarrow> (failure + unit) \<times> token_file" where
  "WriteTokenToPath d t f =
     (case d of
        CannotCreate \<Rightarrow> (Inl (Fatal ''create''), f)
      | CannotWrite \<Rightarrow> (Inl (Fatal ''encode''), Garbled)
      | DiskOk \<Rightarrow> (Inr (), Stored t))"

text \<open>Lines 408 to 427 of \<open>main\<close>: the stored token, or the authorization dialog.\<close>

definition obtain_token :: "env \<Rightarrow> token_file \<Rightarrow> (failure + token) \<times> token_file" where
  "obtain_token e f =
     (case ReadTokenFromPath f of
        Inr t \<Rightarrow> (Inr t, f)
      | Inl _ \<Rightarrow>
          (case scanned_code e of
             None \<Rightarrow> (Inl (Fatal ''scan''), f)
           | Some code \<Rightarrow>
               (case exchange e code of
                  None \<Rightarrow> (Inl (Fatal ''exchange''), f)
                | Some t \<Rightarrow>
                    (case WriteTokenToPath (disk e) t f of
                       (Inl err, f') \<Rightarrow> (Inl err, f')
                     | (Inr u, f') \<Rightarrow> (Inr t, f')))))"

text \<open>\<open>main\<close> up to \<^verbatim>\<open>config.Client(ctx, newToken)\<close>: the token the client is built
  from, and the file as it is left.\<close>

definition startup :: "env \<Rightarrow> token_file \<Rightarrow> (failure + token) \<times> token_file" where
  "startup e f =
     (if \<not> dotenv_loaded e then (Inl (Fatal ''dotenv''), f)
      else if \<not> config_dir_found e then (Inl (Fatal ''config dir''), f)
      else
        (case obtain_token e f of
           (Inl err, f1) \<Rightarrow> (Inl err, f1)
         | (Inr t, f1) \<Rightarrow>
             (case token_source e t of
                None \<Rightarrow> (Inl (Fatal ''token''), f1)
              | Some newToken \<Rightarrow>
                  (if access_token newToken \<noteq> access_token t then
                     (case WriteTokenToPath (disk e) newToken f1 of
                        (Inl err, f2) \<Rightarrow> (Inl err, f2)
                      | (Inr u, f2) \<Rightarrow> (Inr newToken, f2))
                   else (Inr newToken, f1)))))"

text \<open>
  The client of \<^verbatim>\<open>config.Client(ctx, newToken)\<close> keeps its token in memory and
  replaces it there when it refreshes; \<open>main\<close> calls \<^verbatim>\<open>WriteTokenToPath\<close> nowhere
  after the client is built, so the file stays as \<open>startup\<close> left it. \<open>refreshes\<close>
  are the tokens the client obtains during the rest of the run, in order.
\<close>

record session =
  persisted :: token_file
  in_memory :: token

definition silent_refresh :: "session \<Rightarrow> token \<Rightarrow> session" where
  "silent_refresh s t = s\<lparr>in_memory := t\<rparr>"

definition run_session :: "env \<Rightarrow> token list \<Rightarrow> token_file \<Rightarrow> failure + session" where
  "run_session e refreshes f =
     (case startup e f of
        (Inl err, f') \<Rightarrow> Inl err
      | (Inr newToken, f') \<Rightarrow>
          Inr (foldl silent_refresh \<lparr>persisted = f', in_memory = newToken\<rparr> refreshes))"

text \<open>The persisted access token equals the one in memory.\<close>

definition in_step :: "session \<Rightarrow> bool" where
  "in_step s =
     (case persisted s of
        Stored t \<Rightarrow> access_token t = access_token (in_memory s)
      | _ \<Rightarrow> False)"

section \<open>Remote sides for concrete runs\<close>

text \<open>One that answers each GET by its URL with a fixed response and every other
  request with \<open>other\<close>, and one that answers every request with one response.\<close>

definition static_server :: "(string \<times> response) list \<Rightarrow> response option \<Rightarrow> unit transport" where
  "static_server pages other req s =
     (case req of GET url \<Rightarrow> (map_of pages url, s) | _ \<Rightarrow> (other, s))"

definition always :: "response \<Rightarrow> unit transport" where
  "always resp req s = (Some resp, s)"

definition start :: "unit world" where
  "start = \<lparr>remote = (), trace = []\<rparr>"

definition ok :: "json \<Rightarrow> response" where
  "ok b = \<lparr>status = 200, body = Some b\<rparr>"

definition forbidden :: response where
  "forbidden = \<lparr>status = 403, body = Some (JObj [(''error'', JStr ''forbidden'')])\<rparr>"

text \<open>A page of a list endpoint.\<close>

definition page :: "json list \<Rightarrow> json \<Rightarrow> json" where
  "page items nxt = JObj [(''items'', JArr items), (''next'', nxt)]"

text \<open>A list served in pages: the first at \<open>url\<close>, each page naming the URL of
  the next, the last with a null \<^verbatim>\<open>next\<close>.\<close>

fun chain :: "string \<Rightarrow> json list \<Rightarrow> (string \<times> json list) list \<Rightarrow> (string \<times> response) list" where
  "chain url items [] = [(url, ok (page items JNull))]"
| "chain url items ((url', items') # rest) =
     (url, ok (page items (JStr url'))) # chain url' items' rest"

text \<open>Saved tracks on two pages, the second of which has no \<^verbatim>\<open>next\<close> member.\<close>

definition second_page_without_next :: "(string \<times> response) list" where
  "second_page_without_next =
     [(''https://api.spotify.com/v1/me/tracks'', ok (page [JStr ''a''] (JStr ''page2''))),
      (''page2'', ok (JObj [(''items'', JArr [JStr ''b''])]))]"

section \<open>Responses of the expected shape\<close>

text \<open>An item of a playlist's tracks, and a get-playlist response whose first page of
  tracks holds the given URIs and whose cursor for the next page is \<open>nxt\<close>.\<close>

definition track_item :: "string \<Rightarrow> json" where
  "track_item uri = JObj [(''track'', JObj [(''uri'', JStr uri)])]"

definition playlist_json :: "string list \<Rightarrow> json \<Rightarrow> json" where
  "playlist_json uris nxt =
     JObj [(''tracks'', JObj [(''items'', JArr (map track_item uris)), (''next'', nxt)])]"

definition playlist_map :: "string list \<Rightarrow> json \<Rightarrow> gomap" where
  "playlist_map uris nxt = store_members Map.empty
     [(''tracks'', JObj [(''items'', JArr (map track_item uris)), (''next'', nxt)])]"

text \<open>A playlist whose tracks span two pages: A on the first, B behind the cursor.\<close>

definition two_page_playlist :: "(string \<times> response) list" where
  "two_page_playlist =
     [(playlist_url ''p1'', ok (playlist_json [''A''] (JStr ''p1-tracks-page2''))),
      (''p1-tracks-page2'', ok (page [track_item ''B''] JNull))]"

text \<open>Two credentials and two surroundings: one whose token source returns the token it
  was given, one whose token source refreshes at once.\<close>

definition token_a :: token where
  "token_a = \<lparr>access_token = ''A'', token_type = ''Bearer'', refresh_token = ''R'', expiry = 100\<rparr>"

definition token_b :: token where
  "token_b = \<lparr>access_token = ''B'', token_type = ''Bearer'', refresh_token = ''R'', expiry = 200\<rparr>"

definition steady_env :: env where
  "steady_env = \<lparr>dotenv_loaded = True, config_dir_found = True, scanned_code = None,
     exchange = (\<lambda>code. None), token_source = Some, disk = DiskOk\<rparr>"

definition refreshing_env :: env where
  "refreshing_env = steady_env\<lparr>token_source := (\<lambda>t. Some token_b)\<rparr>"

text \<open>A saved-track entry, a playlist of the playlist list, and the answer to a
  successful creation.\<close>

definition saved_track :: "string \<Rightarrow> string \<Rightarrow> json" where
  "saved_track addedAt uri =
     JObj [(''added_at'', JStr addedAt), (''track'', JObj [(''uri'', JStr uri)])]"

definition playlist_entry :: "string \<Rightarrow> string \<Rightarrow> json" where
  "playlist_entry playlistId name = JObj [(''id'', JStr playlistId), (''name'', JStr name)]"



text \<open>A library served in one page per list, and one with a playlist for each of two
  months and a track saved in each (the newer first, as the service lists them).\<close>

definition library :: "json list \<Rightarrow> json list \<Rightarrow> (string \<times> response) list" where
  "library playlists saved =
     [(''https://api.spotify.com/v1/me'', ok (JObj [(''id'', JStr ''me'')])),
      (''https://api.spotify.com/v1/me/playlists'', ok (page playlists JNull)),
      (''https://api.spotify.com/v1/me/tracks'', ok (page saved JNull))]"

definition two_months :: "(string \<times> response) list" where
  "two_months = library
     [playlist_entry ''pj'' ''January '24'', playlist_entry ''pf'' ''February '24'']
     [saved_track ''2024-02-01T00:00:00Z'' ''uri:feb'', saved_track ''2024-01-15T10:00:00Z'' ''uri:jan'']"

section \<open>A remote side with state\<close>

text \<open>
  A small model of the service, for running the program against what its own requests
  have changed: the saved tracks (newest first), the playlists with their tracks, and
  the number of track items that a get-playlist response embeds before it refers to a
  next page. Lists are served in one page; creating a playlist appends it with a fresh
  id; adding tracks appends them to the playlist.
\<close>

record spotify =
  sp_saved :: "json list"
  sp_lists :: "(string \<times> string \<times> string list) list"
  sp_limit :: nat

fun playlist_at ::
  "(string \<Rightarrow> string) \<Rightarrow> string \<Rightarrow> (string \<times> string \<times> string list) list
     \<Rightarrow> (string \<times> string \<times> string list) option"
where
  "playlist_at address url [] = None"
| "playlist_at address url (p # ps) =
     (if address (fst p) = url then Some p else playlist_at address url ps)"

definition playlist_document :: "nat \<Rightarrow> string \<times> string \<times> string list \<Rightarrow> json" where
  "playlist_document limit p =
     JObj [(''id'', JStr (fst p)), (''name'', JStr (fst (snd p))),
           (''tracks'',
            JObj [(''items'', JArr (map track_item (take limit (snd (snd p))))),
                  (''next'',
                   if limit < length (snd (snd p))
                   then JStr (playlist_url (fst p) @ ''/tracks?offset=next'') else JNull)])]"

fun strings_of :: "json list \<Rightarrow> string list" where
  "strings_of [] = []"
| "strings_of (JStr s # js) = s # strings_of js"
| "strings_of (j # js) = strings_of js"

definition not_found :: response where
  "not_found = \<lparr>status = 404, body = Some (JObj [(''error'', JStr ''not found'')])\<rparr>"

definition add_tracks ::
  "string \<Rightarrow> string list \<Rightarrow> (string \<times> string \<times> string list) list
     \<Rightarrow> (string \<times> string \<times> string list) list"
where
  "add_tracks playlistId uris ps =
     map (\<lambda>p. if fst p = playlistId then (fst p, fst (snd p), snd (snd p) @ uris) else p) ps"

definition spotify_get :: "string \<Rightarrow> spotify \<Rightarrow> response" where
  "spotify_get url s =
     (if url = ''https://api.spotify.com/v1/me'' then ok (JObj [(''id'', JStr ''me'')])
      else if url = ''https://api.spotify.com/v1/me/playlists'' then
        ok (page (map (\<lambda>p. playlist_entry (fst p) (fst (snd p))) (sp_lists s)) JNull)
      else if url = ''https://api.spotify.com/v1/me/tracks'' then ok (page (sp_saved s) JNull)
      else
        (case playlist_at playlist_url url (sp_lists s) of
           None \<Rightarrow> not_found
         | Some p \<Rightarrow> ok (playlist_document (sp_limit s) p)))"

definition fresh_id :: "spotify \<Rightarrow> string" where
  "fresh_id s = replicate (Suc (length (sp_lists s))) CHR ''p''"

definition spotify_post :: "string \<Rightarrow> json \<Rightarrow> spotify \<Rightarrow> response \<times> spotify" where
  "spotify_post url b s =
     (if url = ''https://api.spotify.com/v1/users/me/playlists'' then
        (case as_map (Some b) of
           None \<Rightarrow> (not_found, s)
         | Some m \<Rightarrow>
             (case as_string (m ''name'') of
                None \<Rightarrow> (not_found, s)
              | Some name \<Rightarrow>
                  (\<lparr>status = 201, body = Some (JObj [(''id'', JStr (fresh_id s))])\<rparr>,
                   s\<lparr>sp_lists := sp_lists s @ [(fresh_id s, name, [])]\<rparr>)))
      else
        (case playlist_at (\<lambda>i. playlist_url i @ ''/tracks'') url (sp_lists s) of
           None \<Rightarrow> (not_found, s)
         | Some p \<Rightarrow>
             (case as_map (Some b) of
                None \<Rightarrow> (not_found, s)
              | Some m \<Rightarrow>
                  (case as_array (m ''uris'') of
                     None \<Rightarrow> (not_found, s)
                   | Some js \<Rightarrow>
                       (\<lparr>status = 201, body = Some (JObj [(''snapshot_id'', JStr ''s'')])\<rparr>,
                        s\<lparr>sp_lists := add_tracks (fst p) (strings_of js) (sp_lists s)\<rparr>)))))"

definition spotify_api :: "spotify transport" where
  "spotify_api req s =
     (case req of
        GET url \<Rightarrow> (Some (spotify_get url s), s)
      | POST url b \<Rightarrow> (case spotify_post url b s of (r, s') \<Rightarrow> (Some r, s'))
      | DELETE url \<Rightarrow> (Some (ok JNull), s))"

text \<open>A library with two tracks saved in March 2024 and no playlist, on a service that
  embeds one track item per get-playlist response; the same library after the first
  and after the second run.\<close>

definition march_first :: "buckets \<Rightarrow> string list" where
  "march_first tracksByMonth = [''March '24'']"

definition two_saved :: spotify where
  "two_saved = \<lparr>sp_saved = [saved_track ''2024-03-02T10:00:00Z'' ''uri:B'',
                             saved_track ''2024-03-01T10:00:00Z'' ''uri:A''],
                 sp_lists = [], sp_limit = 1\<rparr>"


definition after_first_run :: spotify where
  "after_first_run = two_saved\<lparr>sp_lists := [(''p'', ''March '24'', [''uri:A'', ''uri:B''])]\<rparr>"

definition after_second_run :: spotify where
  "after_second_run = two_saved\<lparr>sp_lists := [(''p'', ''March '24'', [''uri:A'', ''uri:B'', ''uri:B''])]\<rparr>"

text \<open>A playlist that holds A and B, on a service that embeds one track item per
  get-playlist response, before and after C, B and D are appended.\<close>

definition holding_a_b :: spotify where
  "holding_a_b = \<lparr>sp_saved = [], sp_lists = [(''p'', ''March '24'', [''A'', ''B''])], sp_limit = 1\<rparr>"

definition holding_a_b_after :: spotify where
  "holding_a_b_after =
     holding_a_b\<lparr>sp_lists := [(''p'', ''March '24'', [''A'', ''B'', ''C'', ''B'', ''D''])]\<rparr>"

section \<open>Auxiliary notions for the resolution of playlists\<close>

text \<open>The create-playlist request \<open>main\<close> sends for a label, and the labels of the
  tracks of a list that decode.\<close>

definition create_for :: "string \<Rightarrow> string \<Rightarrow> request" where
  "create_for userId name = create_request userId name True False []"


text \<open>
  The invariant of the bucketing loop, for the labels \<open>created\<close> for which a playlist
  has been created so far: each was created once, none of them was found among the
  existing playlists, each is cached, and every cached id is either a created one or
  the id of the first playlist with that name.
\<close>

definition resolved_inv :: "json list \<Rightarrow> playlist_ids \<Rightarrow> string list \<Rightarrow> bool" where
  "resolved_inv playlists playlistMap created =
     (distinct created
      \<and> (\<forall>l. l \<in> set created \<longrightarrow> find_playlist playlists l = Inr None \<and> playlistMap l \<noteq> None)
      \<and> (\<forall>l p. playlistMap l = Some p \<longrightarrow>
             l \<in> set created \<or> find_playlist playlists l = Inr (Some p)))"

definition resolved_post ::
  "json list \<Rightarrow> playlist_ids \<Rightarrow> string list \<Rightarrow> string list \<Rightarrow> playlist_ids \<Rightarrow> bool"
where
  "resolved_post playlists playlistMap labels created playlistMap' =
     (resolved_inv playlists playlistMap' created
      \<and> (\<forall>l. l \<in> set labels \<longrightarrow> playlistMap' l \<noteq> None)
      \<and> (\<forall>l. playlistMap l \<noteq> None \<longrightarrow> playlistMap' l \<noteq> None))"


section \<open>Properties\<close>

subsection \<open>Decoding and the delta\<close>

lemma store_members_Nil [simp]: "store_members m [] = m"
  by (simp add: store_members_def)

lemma store_members_Cons [simp]:
  "store_members m ((k, v) # kvs) = store_members (m(k \<mapsto> v)) kvs"
  by (simp add: store_members_def)

lemma collect_new_filter:
  "collect_new ex uris acc = acc @ filter (\<lambda>u. \<not> is_existing ex u) uris"
  by (induction uris arbitrary: acc) simp_all

lemma mark_existing_items:
  "mark_existing (map track_item us) ex = Inr (\<lambda>u. if u \<in> set us then Some True else ex u)"
proof (induction us arbitrary: ex)
  case Nil
  show ?case by simp
next
  case (Cons a us)
  show ?case
    by (auto simp add: track_item_def Cons.IH [unfolded track_item_def] intro!: ext)
qed

lemma compute_delta_playlist_map:
  "compute_delta (playlist_map us nxt) pending = Inr (filter (\<lambda>u. u \<notin> set us) pending)"
  by (simp add: compute_delta_def playlist_map_def mark_existing_items collect_new_filter
      is_existing_def)

text \<open>
  The loop that fills \<^verbatim>\<open>newUris\<close> returns the pending sequence without the URIs
  marked in \<^verbatim>\<open>existingTracks\<close>, in the pending order; a response whose embedded
  track items hold the URIs \<open>present\<close> marks exactly those, so the delta is the
  pending sequence without the URIs of that response; with A and B embedded and
  A, C, B, D pending the delta is C, D.
\<close>

theorem dedup_delta:
  "collect_new existing pending [] = filter (\<lambda>u. \<not> is_existing existing u) pending
   \<and> compute_delta (playlist_map present nxt) pending
       = Inr (filter (\<lambda>u. u \<notin> set present) pending)
   \<and> compute_delta (playlist_map [''A'', ''B''] JNull) [''A'', ''C'', ''B'', ''D'']
       = Inr [''C'', ''D'']"
  by (simp add: collect_new_filter compute_delta_playlist_map)

subsection \<open>The client and the pager\<close>

lemma client_do_static_GET:
  "client_do (static_server pages other) (GET url) w =
     (map_of pages url, w\<lparr>trace := trace w @ [GET url]\<rparr>)"
  by (simp add: client_do_def static_server_def)

lemma client_do_always:
  "client_do (always resp) req w = (Some resp, w\<lparr>trace := trace w @ [req]\<rparr>)"
  by (simp add: client_do_def always_def)

lemma trace_client_do: "trace (snd (client_do tr req w)) = trace w @ [req]"
  by (simp add: client_do_def split: prod.splits)

lemma refetch_forever:
  "m ''next'' = Some (JStr ''page2'') \<Longrightarrow>
   fst (fetch_rest (static_server second_page_without_next other) fuel m items (JStr ''page2'') w)
     = Inl StillRunning"
proof (induction fuel arbitrary: m items w)
  case 0
  show ?case by simp
next
  case (Suc fuel)
  have page2: "map_of second_page_without_next ''page2'' = Some (ok (JObj [(''items'', JArr [JStr ''b''])]))"
    by (simp add: second_page_without_next_def)
  have "(m(''items'' \<mapsto> JArr [JStr ''b''])) ''next'' = Some (JStr ''page2'')"
    using Suc.prems by simp
  then have "fst (fetch_rest (static_server second_page_without_next other) fuel
       (m(''items'' \<mapsto> JArr [JStr ''b''])) (items @ [JStr ''b'']) (JStr ''page2'')
       (w\<lparr>trace := trace w @ [GET ''page2'']\<rparr>)) = Inl StillRunning"
    by (rule Suc.IH)
  then show ?case
    using Suc.prems by (simp add: client_do_static_GET page2 ok_def)
qed

text \<open>
  C4. The saved tracks are served on two pages and the second response has no
  \<^verbatim>\<open>next\<close> member. The map variable still holds the \<^verbatim>\<open>next\<close> of the first
  page, so the lookup finds a key, no error is returned, and the same URL is fetched
  again: whatever the fuel, the enumeration has not returned.
\<close>

theorem absent_next_on_later_page_not_an_error:
  "fst (EnumerateUsersSavedTracks (static_server second_page_without_next other) fuel start)
     = Inl StillRunning"
proof -
  have page1: "map_of second_page_without_next ''https://api.spotify.com/v1/me/tracks''
      = Some (ok (page [JStr ''a''] (JStr ''page2'')))"
    by (simp add: second_page_without_next_def)
  show ?thesis
    by (simp add: EnumerateUsersSavedTracks_def enumerate_pages_def client_do_static_GET page1
      ok_def page_def refetch_forever)
qed

text \<open>
  C5. A 403 response: \<^verbatim>\<open>AddItemsToPlaylist\<close> returns nil and \<^verbatim>\<open>CreatePlaylist\<close>
  returns the decoded error body as the playlist, both as success;
  \<^verbatim>\<open>DeletePlaylist\<close> returns an error.
\<close>

theorem status_ignored:
  "fst (AddItemsToPlaylist (always forbidden) ''p'' [''u''] start) = Inr ()
   \<and> fst (CreatePlaylist (always forbidden) ''me'' ''March '24'' True False [] start)
       = Inr [''error'' \<mapsto> JStr ''forbidden'']
   \<and> fst (DeletePlaylist (always forbidden) ''p'' start) = Inl (DeleteFailed 403)"
  by (simp add: AddItemsToPlaylist_def CreatePlaylist_def DeletePlaylist_def client_do_always forbidden_def)

subsection \<open>One month of the last loop\<close>

lemma decode_playlist_json:
  "decode_into Map.empty (Some (playlist_json us nxt)) = Some (playlist_map us nxt)"
  by (simp add: playlist_json_def playlist_map_def)

lemma trace_GetPlaylist:
  "trace (snd (GetPlaylist tr pid w)) = trace w @ [GET (playlist_url pid)]"
  by (simp add: GetPlaylist_def get_object_def client_do_def split: prod.splits option.splits)

lemma trace_AddItemsToPlaylist:
  "trace (snd (AddItemsToPlaylist tr pid uris w)) = trace w @ [add_items_request pid uris]"
  by (simp add: AddItemsToPlaylist_def client_do_def split: prod.splits option.splits)

text \<open>
  C8, as stated, fails: called with an empty list, \<^verbatim>\<open>AddItemsToPlaylist\<close> sends
  its POST request with an empty \<^verbatim>\<open>uris\<close> array.
\<close>

theorem empty_list_is_posted:
  "trace (snd (AddItemsToPlaylist (always (ok JNull)) ''p'' [] start))
     = [POST ''https://api.spotify.com/v1/playlists/p/tracks'' (JObj [(''uris'', JArr [])])]
   \<and> trace start = []"
  by (simp add: trace_AddItemsToPlaylist add_items_request_def playlist_url_def start_def)

text \<open>
  C8, amended. \<open>main\<close> guards the call: for a label whose delta is empty the only
  request is the get-playlist one and no append call is made; a label with nothing
  pending makes no request at all.
\<close>

theorem empty_delta_no_append:
  assumes "playlistMap month = Some pid"
    and "uris \<noteq> []"
    and "GetPlaylist tr pid w = (Inr playlist, w')"
    and "compute_delta playlist uris = Inr []"
  shows "sync_month tr playlistMap month uris w = (Inr (), w')
         \<and> trace w' = trace w @ [GET (playlist_url pid)]
         \<and> sync_month tr playlistMap month [] w = (Inr (), w)"
proof -
  have "trace (snd (GetPlaylist tr pid w)) = trace w @ [GET (playlist_url pid)]"
    by (rule trace_GetPlaylist)
  then have "trace w' = trace w @ [GET (playlist_url pid)]"
    using assms(3) by simp
  then show ?thesis
    using assms by (simp add: sync_month_def)
qed

theorem empty_delta_no_append_witness:
  "sync_month (static_server two_page_playlist None) [''March '24'' \<mapsto> ''p1''] ''March '24'' [''A''] start
     = (Inr (), \<lparr>remote = (), trace = [GET (playlist_url ''p1'')]\<rparr>)
   \<and> sync_month (static_server two_page_playlist None) [''March '24'' \<mapsto> ''p1''] ''March '24'' [] start
     = (Inr (), start)"
proof -
  have g: "GetPlaylist (static_server two_page_playlist None) ''p1'' start
      = (Inr (playlist_map [''A''] (JStr ''p1-tracks-page2'')), \<lparr>remote = (), trace = [GET (playlist_url ''p1'')]\<rparr>)"
    by (simp add: GetPlaylist_def get_object_def client_do_def static_server_def two_page_playlist_def
        ok_def decode_playlist_json start_def)
  have d: "compute_delta (playlist_map [''A''] (JStr ''p1-tracks-page2'')) [''A''] = Inr []"
    by (simp add: compute_delta_playlist_map)
  have m: "[''March '24'' \<mapsto> ''p1''] ''March '24'' = Some ''p1''" by simp
  have n: "[''A''] \<noteq> ([] :: string list)" by simp
  from empty_delta_no_append [where playlistMap = "[''March '24'' \<mapsto> ''p1'']" and month = "''March '24''"
      and pid = "''p1''", OF m n g d]
  show ?thesis by simp
qed

text \<open>
  C10. Whatever cursor the get-playlist response carries, the step makes that one GET
  and no other; the URIs it leaves out of the append are those of the items in that
  response, so a pending URI that is on a later page of the playlist only is appended.
\<close>

theorem first_page_only:
  assumes "playlistMap month = Some pid"
    and "pending \<noteq> []"
    and "tr (GET (playlist_url pid)) (remote w) = (Some resp, s')"
    and "body resp = Some (playlist_json first_page cursor)"
  shows "trace (snd (sync_month tr playlistMap month pending w))
         = trace w @ GET (playlist_url pid) #
             (if filter (\<lambda>u. u \<notin> set first_page) pending = [] then []
              else [add_items_request pid (filter (\<lambda>u. u \<notin> set first_page) pending)])"
proof -
  let ?w' = "w\<lparr>remote := s', trace := trace w @ [GET (playlist_url pid)]\<rparr>"
  have g: "GetPlaylist tr pid w = (Inr (playlist_map first_page cursor), ?w')"
    using assms(3,4) by (simp add: GetPlaylist_def get_object_def client_do_def decode_playlist_json)
  show ?thesis
    using assms(1,2) by (simp add: sync_month_def g compute_delta_playlist_map trace_AddItemsToPlaylist)
qed

theorem first_page_only_witness:
  "trace (snd (sync_month (static_server two_page_playlist (Some (ok JNull))) [''March '24'' \<mapsto> ''p1''] ''March '24'' [''A'', ''B''] start))
     = [GET (playlist_url ''p1''), add_items_request ''p1'' [''B'']]
   \<and> map_of two_page_playlist ''p1-tracks-page2'' = Some (ok (page [track_item ''B''] JNull))"
proof -
  have m: "[''March '24'' \<mapsto> ''p1''] ''March '24'' = Some ''p1''" by simp
  have n: "[''A'', ''B''] \<noteq> ([] :: string list)" by simp
  have t: "static_server two_page_playlist (Some (ok JNull)) (GET (playlist_url ''p1'')) (remote start)
     = (Some (ok (playlist_json [''A''] (JStr ''p1-tracks-page2''))), ())"
    by (simp add: static_server_def two_page_playlist_def)
  have b: "body (ok (playlist_json [''A''] (JStr ''p1-tracks-page2''))) = Some (playlist_json [''A''] (JStr ''p1-tracks-page2''))"
    by (simp add: ok_def)
  have p: "map_of two_page_playlist ''p1-tracks-page2'' = Some (ok (page [track_item ''B''] JNull))"
    by (simp add: two_page_playlist_def playlist_url_def)
  from first_page_only [where playlistMap = "[''March '24'' \<mapsto> ''p1'']" and month = "''March '24''"
      and pid = "''p1''" and tr = "static_server two_page_playlist (Some (ok JNull))" and w = start,
      OF m n t b] p
  show ?thesis by (simp add: start_def)
qed

subsection \<open>The credential\<close>

text \<open>
  C9, as stated, fails: the stored token is valid at the start, the client refreshes it
  during the run, and at the end the file still holds the old access token.
\<close>

theorem refresh_during_run_not_persisted:
  "run_session steady_env [token_b] (Stored token_a)
     = Inr \<lparr>persisted = Stored token_a, in_memory = token_b\<rparr>
   \<and> \<not> in_step \<lparr>persisted = Stored token_a, in_memory = token_b\<rparr>"
  by (simp add: run_session_def startup_def obtain_token_def ReadTokenFromPath_def steady_env_def
      silent_refresh_def in_step_def token_a_def token_b_def)

text \<open>
  C9, amended. When \<open>main\<close> has built its client, the file holds the access token
  the client was built from (a token refreshed by \<^verbatim>\<open>tokenSource.Token()\<close> at the
  start has been written back), and so it does at the end of a run during which the
  client did not refresh.
\<close>

theorem startup_write_back:
  assumes "startup e f = (Inr newToken, f')"
  shows "in_step \<lparr>persisted = f', in_memory = newToken\<rparr>
         \<and> run_session e [] f = Inr \<lparr>persisted = f', in_memory = newToken\<rparr>"
  using assms
  by (auto simp add: startup_def obtain_token_def ReadTokenFromPath_def WriteTokenToPath_def
      run_session_def in_step_def
      split: if_splits option.splits sum.splits prod.splits token_file.splits disk.splits)

theorem startup_write_back_witness:
  "startup refreshing_env (Stored token_a) = (Inr token_b, Stored token_b)
   \<and> in_step \<lparr>persisted = Stored token_b, in_memory = token_b\<rparr>
   \<and> run_session refreshing_env [] (Stored token_a) = Inr \<lparr>persisted = Stored token_b, in_memory = token_b\<rparr>"
proof -
  have s: "startup refreshing_env (Stored token_a) = (Inr token_b, Stored token_b)"
    by (simp add: startup_def obtain_token_def ReadTokenFromPath_def WriteTokenToPath_def
        refreshing_env_def steady_env_def token_a_def token_b_def)
  from startup_write_back [OF s] s show ?thesis by simp
qed

subsection \<open>Resolving the playlists\<close>

lemma resolved_post_refl:
  "resolved_inv pls pm created \<Longrightarrow> \<forall>l. l \<in> set labels \<longrightarrow> pm l \<noteq> None
     \<Longrightarrow> resolved_post pls pm labels created pm"
  by (simp add: resolved_post_def)








lemma create_for_inject [simp]: "create_for u l = create_for u l' \<longleftrightarrow> l = l'"
  by (simp add: create_for_def create_request_def)



subsection \<open>Month labels\<close>

lemma digit_val_less: "is_digit c \<Longrightarrow> digit_val c < 10"
  unfolding is_digit_def digit_val_def by linarith

lemma of_char_digit_char: "k < 10 \<Longrightarrow> of_char (digit_char k) = (48::nat) + k"
proof -
  assume "k < 10"
  then have "k \<in> {0,1,2,3,4,5,6,7,8,9}" by auto
  then show ?thesis by (auto simp add: digit_char_def)
qed

lemma digit_char_digit_val: "is_digit c \<Longrightarrow> digit_char (digit_val c) = c"
proof -
  assume d: "is_digit c"
  then have "of_char (digit_char (digit_val c)) = (48::nat) + digit_val c"
    by (intro of_char_digit_char digit_val_less)
  also have "\<dots> = of_char c" using d unfolding is_digit_def digit_val_def by linarith
  finally show ?thesis by simp
qed

lemma year_tens:
  fixes a b c d :: nat
  assumes "c < 10" "d < 10"
  shows "(a * 1000 + b * 100 + c * 10 + d) mod 100 div 10 = c"
proof -
  have e: "a * 1000 + b * 100 + c * 10 + d = (c * 10 + d) + 100 * (a * 10 + b)" by simp
  have "(a * 1000 + b * 100 + c * 10 + d) mod 100 = (c * 10 + d) mod 100"
    by (subst e) (rule mod_mult_self2)
  also have "\<dots> = c * 10 + d" using assms by simp
  finally show ?thesis using assms by simp
qed

lemma year_units:
  fixes a b c d :: nat
  assumes "d < 10"
  shows "(a * 1000 + b * 100 + c * 10 + d) mod 10 = d"
proof -
  have e: "a * 1000 + b * 100 + c * 10 + d = d + 10 * (a * 100 + b * 10 + c)" by simp
  have "(a * 1000 + b * 100 + c * 10 + d) mod 10 = d mod 10"
    by (subst e) (rule mod_mult_self2)
  then show ?thesis using assms by simp
qed

lemma get_year_shape:
  assumes "get_year s = Some (y, r)"
  shows "\<exists>a b c d. s = a # b # c # d # r \<and> is_digit c \<and> is_digit d
           \<and> y mod 100 div 10 = digit_val c \<and> y mod 10 = digit_val d"
proof -
  from assms obtain a b c d where s: "s = a # b # c # d # r"
    and dg: "is_digit a" "is_digit b" "is_digit c" "is_digit d"
    and y: "y = digit_val a * 1000 + digit_val b * 100 + digit_val c * 10 + digit_val d"
    by (cases s rule: get_year.cases) (auto split: if_splits)
  from dg have lt: "digit_val c < 10" "digit_val d < 10" by (simp_all add: digit_val_less)
  have "y mod 100 div 10 = digit_val c"
    unfolding y using lt by (rule year_tens)
  moreover have "y mod 10 = digit_val d"
    unfolding y using lt(2) by (rule year_units)
  ultimately show ?thesis using s dg by blast
qed

lemma getnum_fixed_shape:
  assumes "getnum s True = Some (n, r)"
  shows "\<exists>c d. s = c # d # r \<and> n = digit_val c * 10 + digit_val d"
proof (cases s)
  case Nil
  with assms show ?thesis by simp
next
  case (Cons c s')
  with assms show ?thesis by (cases s') (auto split: if_splits)
qed

lemma skip_char_shape: "skip_char c s = Some r \<Longrightarrow> s = c # r"
  by (cases s) (auto split: if_splits)

lemma parse_date_shape:
  assumes "parse_date s = Some ((y, m, d), r)"
  shows "\<exists>a b c e p q r'. s = a # b # c # e # CHR ''-'' # p # q # r'
       \<and> is_digit c \<and> is_digit e \<and> y mod 100 div 10 = digit_val c \<and> y mod 10 = digit_val e
       \<and> m = digit_val p * 10 + digit_val q \<and> 1 \<le> m \<and> m \<le> 12"
proof -
  from assms obtain s1 s2 s3 where a: "get_year s = Some (y, s1)"
     and b: "skip_char CHR ''-'' s1 = Some s2"
     and c: "getnum s2 True = Some (m, s3)" and rng: "1 \<le> m" "m \<le> 12"
    by (auto simp add: parse_date_def split: option.splits prod.splits if_splits)
  from skip_char_shape [OF b] have s1: "s1 = CHR ''-'' # s2" .
  from getnum_fixed_shape [OF c] obtain p q where s2: "s2 = p # q # s3"
    and m: "m = digit_val p * 10 + digit_val q"
    by blast
  from get_year_shape [OF a] obtain a' b' c' d' where s: "s = a' # b' # c' # d' # s1"
    and rest: "is_digit c'" "is_digit d'" "y mod 100 div 10 = digit_val c'" "y mod 10 = digit_val d'"
    by blast
  have "s = a' # b' # c' # d' # CHR ''-'' # p # q # s3" by (simp add: s s1 s2)
  with rest m rng show ?thesis by blast
qed


lemma track_label_uri_saved_track:
  "track_label_uri (saved_track addedAt uri) =
     (case time_Parse addedAt of None \<Rightarrow> Inl (Fatal ''time'') | Some t \<Rightarrow> Inr (time_Format t, uri))"
  by (simp add: track_label_uri_def saved_track_def split: option.splits)

lemma time_Format_of_parsed:
  assumes "time_Parse s = Some t"
  shows "t_month t = digit_val (s ! 5) * 10 + digit_val (s ! 6)
       \<and> 1 \<le> t_month t \<and> t_month t \<le> 12
       \<and> time_Format t = month_name (t_month t) @ [CHR '' '', CHR 0x27, s ! 2, s ! 3]"
proof -
  from assms obtain y m d r where pd: "parse_date s = Some ((y, m, d), r)"
    and ty: "t_year t = y" and tm: "t_month t = m"
    by (auto simp add: time_Parse_def split: option.splits prod.splits if_splits)
  from parse_date_shape [OF pd] obtain a b c e p q r'
    where s: "s = a # b # c # e # CHR ''-'' # p # q # r'"
    and dg: "is_digit c" "is_digit e"
    and yy: "y mod 100 div 10 = digit_val c" "y mod 10 = digit_val e"
    and m: "m = digit_val p * 10 + digit_val q" "1 \<le> m" "m \<le> 12"
    by blast
  have idx: "s ! 2 = c" "s ! 3 = e" "s ! 5 = p" "s ! 6 = q" by (simp_all add: s)
  have "time_Format t = month_name m @ [CHR '' '', CHR 0x27, c, e]"
    by (simp add: time_Format_def ty tm yy digit_char_digit_val dg)
  with m tm idx show ?thesis by simp
qed

lemmas eval_time = time_Parse_def parse_date_def parse_clock_def time_Format_def is_digit_def
  digit_val_def days_in_def is_leap_def month_name_def digit_char_def

lemmas eval_bucket = bucket_track_def track_label_uri_def resolve_playlist_def bucket_of_def
  saved_track_def playlist_entry_def

lemma two_months_buckets:
  "fst (bucket_phase (static_server two_months None) 0 start)
   = Inr ([''January '24'' \<mapsto> ''pj'', ''February '24'' \<mapsto> ''pf''],
          [''January '24'' \<mapsto> [''uri:jan''], ''February '24'' \<mapsto> [''uri:feb'']])"
  by (simp add: bucket_phase_def GetCurrentUsersProfile_def get_object_def client_do_def static_server_def
     two_months_def library_def ok_def page_def EnumerateCurrentUsersPlaylists_def EnumerateUsersSavedTracks_def
     enumerate_pages_def reverse_tracks_def start_def eval_bucket eval_time)

text \<open>
  C7. The label of a saved track whose \<^verbatim>\<open>added_at\<close> parses is the name of the month
  that the sixth and seventh characters of the text encode, a space, an apostrophe and
  the third and fourth characters of the text (the last two digits of the year): the
  date fields as written, whatever the offset that follows. The two timestamps of the
  specification give \<^verbatim>\<open>January '24\<close> and \<^verbatim>\<open>February '24\<close>; 23:30 on 31 January
  at offset -05:00 stays in January; and a library with those two tracks ends in exactly
  the two buckets, each holding its track.
\<close>

theorem month_label:
  assumes "track_label_uri (saved_track addedAt uri) = Inr (label, u)"
  shows "label = month_name (digit_val (addedAt ! 5) * 10 + digit_val (addedAt ! 6))
                   @ [CHR '' '', CHR 0x27, addedAt ! 2, addedAt ! 3]
       \<and> 1 \<le> digit_val (addedAt ! 5) * 10 + digit_val (addedAt ! 6)
       \<and> digit_val (addedAt ! 5) * 10 + digit_val (addedAt ! 6) \<le> 12
       \<and> u = uri
       \<and> track_label_uri (saved_track ''2024-01-15T10:00:00Z'' uri) = Inr (''January '24'', uri)
       \<and> track_label_uri (saved_track ''2024-02-01T00:00:00Z'' uri) = Inr (''February '24'', uri)
       \<and> track_label_uri (saved_track ''2024-01-31T23:30:00-05:00'' uri) = Inr (''January '24'', uri)
       \<and> fst (bucket_phase (static_server two_months None) 0 start)
           = Inr ([''January '24'' \<mapsto> ''pj'', ''February '24'' \<mapsto> ''pf''],
                  [''January '24'' \<mapsto> [''uri:jan''], ''February '24'' \<mapsto> [''uri:feb'']])"
proof -
  from assms obtain t where p: "time_Parse addedAt = Some t" and l: "label = time_Format t" and u: "u = uri"
    by (auto simp add: track_label_uri_saved_track split: option.splits)
  from time_Format_of_parsed [OF p] l u
  have general: "label = month_name (digit_val (addedAt ! 5) * 10 + digit_val (addedAt ! 6))
                   @ [CHR '' '', CHR 0x27, addedAt ! 2, addedAt ! 3]
       \<and> 1 \<le> digit_val (addedAt ! 5) * 10 + digit_val (addedAt ! 6)
       \<and> digit_val (addedAt ! 5) * 10 + digit_val (addedAt ! 6) \<le> 12
       \<and> u = uri" by simp
  have e1: "track_label_uri (saved_track ''2024-01-15T10:00:00Z'' uri) = Inr (''January '24'', uri)"
    by (simp add: track_label_uri_saved_track eval_time)
  have e2: "track_label_uri (saved_track ''2024-02-01T00:00:00Z'' uri) = Inr (''February '24'', uri)"
    by (simp add: track_label_uri_saved_track eval_time)
  have e3: "track_label_uri (saved_track ''2024-01-31T23:30:00-05:00'' uri) = Inr (''January '24'', uri)"
    by (simp add: track_label_uri_saved_track eval_time)
  from general e1 e2 e3 two_months_buckets show ?thesis by blast
qed

theorem month_label_witness:
  "track_label_uri (saved_track ''2023-12-31T23:59:59+14:00'' ''uri:x'') = Inr (''December '23'', ''uri:x'')
   \<and> ''December '23'' = month_name (digit_val (''2023-12-31T23:59:59+14:00'' ! 5) * 10
          + digit_val (''2023-12-31T23:59:59+14:00'' ! 6)) @ [CHR '' '', CHR 0x27, CHR ''2'', CHR ''3'']"
proof -
  have h: "track_label_uri (saved_track ''2023-12-31T23:59:59+14:00'' ''uri:x'') = Inr (''December '23'', ''uri:x'')"
    by (simp add: track_label_uri_saved_track eval_time)
  from month_label [OF h] h show ?thesis by simp
qed

subsection \<open>A run of the bucketing loop\<close>


subsection \<open>Whole runs\<close>

lemmas eval_sync = sync_def bucket_phase_def GetCurrentUsersProfile_def GetPlaylist_def get_object_def
  client_do_def EnumerateCurrentUsersPlaylists_def EnumerateUsersSavedTracks_def enumerate_pages_def
  reverse_tracks_def sync_month_def compute_delta_def is_existing_def AddItemsToPlaylist_def
  CreatePlaylist_def add_items_request_def create_request_def playlist_url_def ok_def page_def
  track_item_def

lemmas eval_spotify = spotify_api_def spotify_get_def spotify_post_def playlist_document_def
  add_tracks_def fresh_id_def march_first_def two_saved_def after_first_run_def after_second_run_def
  not_found_def

text \<open>
  C1. Two runs in a row on the library of two March tracks, nothing saved in between.
  The first run creates the playlist and appends A and B. The second run reads the first
  page of the playlist, which holds A only, and appends B again: the playlist ends as
  A, B, B.
\<close>

theorem second_run_appends_again:
  "sync spotify_api 0 march_first \<lparr>remote = two_saved, trace = []\<rparr>
     = (Inr (),
        \<lparr>remote = after_first_run,
           trace = [GET ''https://api.spotify.com/v1/me'',
                    GET ''https://api.spotify.com/v1/me/playlists'',
                    GET ''https://api.spotify.com/v1/me/tracks'',
                    create_request ''me'' ''March '24'' True False [],
                    GET (playlist_url ''p''),
                    add_items_request ''p'' [''uri:A'', ''uri:B'']]\<rparr>)
   \<and> sync spotify_api 0 march_first \<lparr>remote = after_first_run, trace = []\<rparr>
     = (Inr (),
        \<lparr>remote = after_second_run,
           trace = [GET ''https://api.spotify.com/v1/me'',
                    GET ''https://api.spotify.com/v1/me/playlists'',
                    GET ''https://api.spotify.com/v1/me/tracks'',
                    GET (playlist_url ''p''),
                    add_items_request ''p'' [''uri:B'']]\<rparr>)"
  by (simp add: eval_sync eval_spotify eval_bucket eval_time)

text \<open>
  C2. The playlist holds A and B, and its get-playlist response embeds A and refers to a
  next page for B. With A, C, B, D pending, the step appends C, B, D, so that B is in
  the playlist twice; the pending sequence without the URIs present in the playlist is
  C, D.
\<close>

theorem delta_keeps_uri_of_later_page:
  "sync_month spotify_api [''March '24'' \<mapsto> ''p''] ''March '24'' [''A'', ''C'', ''B'', ''D'']
       \<lparr>remote = holding_a_b, trace = []\<rparr>
     = (Inr (),
        \<lparr>remote = holding_a_b_after,
           trace = [GET (playlist_url ''p''), add_items_request ''p'' [''C'', ''B'', ''D'']]\<rparr>)
   \<and> filter (\<lambda>u. u \<notin> set [''A'', ''B'']) [''A'', ''C'', ''B'', ''D''] = [''C'', ''D'']"
  by (simp add: eval_sync eval_spotify holding_a_b_def holding_a_b_after_def)

text \<open>
  C6. For one saved track and for three, the loop stops at \<open>i = j\<close> and the middle
  slot of \<^verbatim>\<open>reverseTracks\<close> keeps the nil it was made with; a run on a library
  with one saved track stops at that element.
\<close>

theorem middle_slot_stays_nil:
  "reverse_tracks [a] = Inr [JNull]
   \<and> reverse_tracks [a, b, c] = Inr [c, JNull, a]
   \<and> fst (sync (static_server (library [] [saved_track ''2024-03-01T10:00:00Z'' ''uri:A'']) None)
            0 order start) = Inl (Fatal ''track'')"
  by (simp add: eval_sync static_server_def library_def start_def eval_bucket)

subsection \<open>Well-formed pages\<close>

lemma map_fst_chain: "map fst (chain url xs rest) = url # map fst rest"
  by (induction rest arbitrary: url xs) auto

lemma fetch_rest_chain:
  assumes "set (chain url xs rest) \<subseteq> set srv" and "distinct (map fst srv)"
    and "length rest < fuel"
  shows "fst (fetch_rest (static_server srv other) fuel m acc (JStr url) w)
           = Inr (acc @ xs @ concat (map snd rest))"
  using assms
proof (induction rest arbitrary: url xs fuel m acc w)
  case Nil
  then obtain f where fuel: "fuel = Suc f" by (cases fuel) auto
  from Nil.prems(1) have "(url, ok (page xs JNull)) \<in> set srv" by simp
  with Nil.prems(2) have "map_of srv url = Some (ok (page xs JNull))" by simp
  then show ?case
    by (cases f) (simp_all add: fuel client_do_static_GET ok_def page_def)
next
  case (Cons p others)
  obtain u ys where p: "p = (u, ys)" by (cases p)
  from Cons.prems(3) obtain f where fuel: "fuel = Suc f" and f: "length others < f"
    by (cases fuel) auto
  from Cons.prems(1) p have "(url, ok (page xs (JStr u))) \<in> set srv" by simp
  with Cons.prems(2) have here: "map_of srv url = Some (ok (page xs (JStr u)))" by simp
  from Cons.prems(1) p have sub: "set (chain u ys others) \<subseteq> set srv" by simp
  have "fst (fetch_rest (static_server srv other) f
          (m(''items'' \<mapsto> JArr xs, ''next'' \<mapsto> JStr u)) ((acc @ xs)) (JStr u)
          (w\<lparr>trace := trace w @ [GET url]\<rparr>))
        = Inr ((acc @ xs) @ ys @ concat (map snd others))"
    by (rule Cons.IH [OF sub Cons.prems(2) f])
  then show ?case
    by (simp add: fuel p client_do_static_GET here ok_def page_def)
qed

text \<open>
  A list served in well-formed pages at distinct URLs is returned whole: the items
  of all pages, in page order, once the fuel covers the number of further pages.
\<close>

theorem pages_concatenated:
  assumes "distinct (url # map fst rest)" and "length rest \<le> fuel"
  shows "fst (enumerate_pages (static_server (chain url xs rest) other) fuel url w)
           = Inr (xs @ concat (map snd rest))"
proof (cases rest)
  case Nil
  then show ?thesis
    by (cases fuel) (simp_all add: enumerate_pages_def client_do_static_GET ok_def page_def)
next
  case (Cons p others)
  obtain u ys where p: "p = (u, ys)" by (cases p)
  have d: "distinct (map fst (chain url xs rest))" using assms(1) by (simp add: map_fst_chain)
  have sub: "set (chain u ys others) \<subseteq> set (chain url xs rest)" using Cons p by auto
  have here: "map_of (chain url xs rest) url = Some (ok (page xs (JStr u)))"
    using Cons p by simp
  from assms(2) Cons have f: "length others < fuel" by simp
  have "fst (fetch_rest (static_server (chain url xs rest) other) fuel
          [''items'' \<mapsto> JArr xs, ''next'' \<mapsto> JStr u] ([] @ xs) (JStr u)
          (w\<lparr>trace := trace w @ [GET url]\<rparr>))
        = Inr (([] @ xs) @ ys @ concat (map snd others))"
    by (rule fetch_rest_chain [OF sub d f])
  then show ?thesis
    using Cons p by (simp add: enumerate_pages_def client_do_static_GET here ok_def page_def)
qed

theorem pages_concatenated_witness:
  "fst (EnumerateUsersSavedTracks
          (static_server (chain ''https://api.spotify.com/v1/me/tracks'' [JStr ''a'', JStr ''b'']
             [(''page2'', [JStr ''c'']), (''page3'', [JStr ''d'', JStr ''e''])]) None) 2 start)
     = Inr [JStr ''a'', JStr ''b'', JStr ''c'', JStr ''d'', JStr ''e'']"
proof -
  have d: "distinct (''https://api.spotify.com/v1/me/tracks'' # map fst [(''page2'', [JStr ''c'']), (''page3'', [JStr ''d'', JStr ''e''])])"
    by simp
  have l: "length [(''page2'', [JStr ''c'']), (''page3'', [JStr ''d'', JStr ''e''])] \<le> (2::nat)" by simp
  from pages_concatenated [OF d l] show ?thesis
    by (simp add: EnumerateUsersSavedTracks_def)
qed

text \<open>
  A first response without a \<^verbatim>\<open>next\<close> member is an error.
\<close>

theorem absent_next_on_first_page:
  assumes "tr (GET url) (remote w) = (Some resp, s')"
    and "body resp = Some (JObj [(''items'', JArr xs)])"
  shows "fst (enumerate_pages tr fuel url w) = Inl (Unexpected ''next'')"
  using assms by (simp add: enumerate_pages_def client_do_def)

theorem absent_next_on_first_page_witness:
  "fst (EnumerateCurrentUsersPlaylists (always (ok (JObj [(''items'', JArr [])]))) 3 start)
     = Inl (Unexpected ''next'')"
proof -
  have a: "always (ok (JObj [(''items'', JArr [])])) (GET ''https://api.spotify.com/v1/me/playlists'') (remote start)
      = (Some (ok (JObj [(''items'', JArr [])])), ())" by (simp add: always_def)
  have b: "body (ok (JObj [(''items'', JArr [])])) = Some (JObj [(''items'', JArr [])])" by (simp add: ok_def)
  from absent_next_on_first_page [where tr = "always (ok (JObj [(''items'', JArr [])]))" and w = start, OF a b]
  show ?thesis by (simp add: EnumerateCurrentUsersPlaylists_def)
qed

subsection \<open>The reversal for every length\<close>

lemma middle_even: "even (n::nat) \<Longrightarrow> int n - 1 \<noteq> 2 * int k"
proof
  assume e: "even n" and "int n - 1 = 2 * int k"
  then have "n = 2 * k + 1" by linarith
  then have "odd n" by simp
  with e show False by simp
qed

lemma middle_odd: "odd (n::nat) \<Longrightarrow> int n - 1 = 2 * int k \<longleftrightarrow> k = n div 2"
proof
  assume "odd n" and "int n - 1 = 2 * int k"
  then have "n = 2 * k + 1" by linarith
  then show "k = n div 2" by simp
next
  assume o: "odd n" and k: "k = n div 2"
  from o have "n = 2 * (n div 2) + 1" by (simp add: odd_two_times_div_two_succ)
  with k show "int n - 1 = 2 * int k" by linarith
qed

lemma reverse_loop_nth:
  assumes "length r = length ts" and "0 \<le> i" and "i + j = int (length ts) - 1"
  shows "\<exists>r'. reverse_loop ts r i j = Inr r' \<and> length r' = length ts
           \<and> (\<forall>k<length ts. r' ! k =
                 (if i \<le> int k \<and> int k \<le> j \<and> i + j \<noteq> 2 * int k
                  then ts ! (length ts - 1 - k) else r ! k))"
  using assms
proof (induction ts r i j rule: reverse_loop.induct)
  case (1 ts r i j)
  show ?case
  proof (cases "i < j")
    case False
    then have stop: "reverse_loop ts r i j = Inr r" by simp
    have "\<forall>k<length ts. r ! k =
                 (if i \<le> int k \<and> int k \<le> j \<and> i + j \<noteq> 2 * int k
                  then ts ! (length ts - 1 - k) else r ! k)"
      using False by auto
    with stop "1.prems"(1) show ?thesis by simp
  next
    case True
    have bounds: "0 \<le> i \<and> j < int (length ts) \<and> j < int (length r)"
      using "1.prems" True by auto
    let ?r1 = "r[nat i := ts ! nat j, nat j := ts ! nat i]"
    have step: "reverse_loop ts r i j = reverse_loop ts ?r1 (i + 1) (j - 1)"
      using True bounds by simp
    have len1: "length ?r1 = length ts" using "1.prems"(1) by simp
    have sum1: "(i + 1) + (j - 1) = int (length ts) - 1" using "1.prems"(3) by simp
    have pos1: "0 \<le> i + 1" using "1.prems"(2) by simp
    from "1.IH" [OF True bounds len1 pos1 sum1] obtain r' where
      r': "reverse_loop ts ?r1 (i + 1) (j - 1) = Inr r'" "length r' = length ts"
      and nth: "\<forall>k<length ts. r' ! k =
                 (if i + 1 \<le> int k \<and> int k \<le> j - 1 \<and> (i + 1) + (j - 1) \<noteq> 2 * int k
                  then ts ! (length ts - 1 - k) else ?r1 ! k)"
      by blast
    have "\<forall>k<length ts. r' ! k =
                 (if i \<le> int k \<and> int k \<le> j \<and> i + j \<noteq> 2 * int k
                  then ts ! (length ts - 1 - k) else r ! k)"
    proof (intro allI impI)
      fix k assume k: "k < length ts"
      have pi: "0 \<le> i" and pj: "0 \<le> j" using bounds True by linarith+
      have ni: "nat i < length r" "nat j < length r" "nat i \<noteq> nat j"
        using bounds True "1.prems" by auto
      consider (inner) "i + 1 \<le> int k \<and> int k \<le> j - 1 \<and> i + j \<noteq> 2 * int k"
        | (mid) "i + 1 \<le> int k \<and> int k \<le> j - 1 \<and> i + j = 2 * int k"
        | (left) "int k = i" | (right) "int k = j"
        | (outside) "int k < i \<or> j < int k" by linarith
      then show "r' ! k =
                 (if i \<le> int k \<and> int k \<le> j \<and> i + j \<noteq> 2 * int k
                  then ts ! (length ts - 1 - k) else r ! k)"
      proof cases
        case inner
        with nth k show ?thesis by simp
      next
        case mid
        then have "int k \<noteq> i" "int k \<noteq> j" by linarith+
        then have "k \<noteq> nat i" "k \<noteq> nat j" using pi pj by (simp_all add: nat_eq_iff2)
        with nth k mid show ?thesis by simp
      next
        case left
        then have ki: "k = nat i" by simp
        have "length ts - 1 - k = nat j" using left "1.prems"(3) k by linarith
        moreover have "?r1 ! k = ts ! nat j" using ki ni by simp
        moreover have "i + j \<noteq> 2 * int k" using left True by linarith
        ultimately show ?thesis using nth k left True by simp
      next
        case right
        then have kj: "k = nat j" by simp
        have "length ts - 1 - k = nat i" using right "1.prems"(2,3) k by linarith
        moreover have "?r1 ! k = ts ! nat i" using kj ni by simp
        moreover have "i + j \<noteq> 2 * int k" using right True by linarith
        ultimately show ?thesis using nth k right True by simp
      next
        case outside
        then have "int k \<noteq> i" "int k \<noteq> j" using True by linarith+
        then have "k \<noteq> nat i" "k \<noteq> nat j" using pi pj by (simp_all add: nat_eq_iff2)
        with nth k outside show ?thesis by auto
      qed
    qed
    with step r' show ?thesis by simp
  qed
qed

text \<open>
  What the reversal yields: the reversed list when the length is even, and the
  reversed list with nil in the middle slot when it is odd.
\<close>

theorem reverse_tracks_characterised:
  "reverse_tracks ts =
     Inr (if even (length ts) then rev ts else (rev ts)[length ts div 2 := JNull])"
proof -
  let ?n = "length ts"
  have "\<exists>r'. reverse_loop ts (replicate ?n JNull) 0 (int ?n - 1) = Inr r' \<and> length r' = ?n
           \<and> (\<forall>k<?n. r' ! k =
                 (if 0 \<le> int k \<and> int k \<le> int ?n - 1 \<and> 0 + (int ?n - 1) \<noteq> 2 * int k
                  then ts ! (?n - 1 - k) else replicate ?n JNull ! k))"
    by (rule reverse_loop_nth) simp_all
  then obtain r' where rl: "reverse_loop ts (replicate ?n JNull) 0 (int ?n - 1) = Inr r'"
    and len: "length r' = ?n"
    and nth0: "\<forall>k<?n. r' ! k =
                 (if 0 \<le> int k \<and> int k \<le> int ?n - 1 \<and> 0 + (int ?n - 1) \<noteq> 2 * int k
                  then ts ! (?n - 1 - k) else replicate ?n JNull ! k)"
    by (elim exE conjE)
  have run: "reverse_tracks ts = Inr r'" using rl by (simp add: reverse_tracks_def)
  have nth: "\<forall>k<?n. r' ! k = (if int ?n - 1 \<noteq> 2 * int k then ts ! (?n - 1 - k) else JNull)"
  proof (intro allI impI)
    fix k assume k: "k < ?n"
    then have in_range: "0 \<le> int k \<and> int k \<le> int ?n - 1" by linarith
    from nth0 k have "r' ! k =
                 (if 0 \<le> int k \<and> int k \<le> int ?n - 1 \<and> 0 + (int ?n - 1) \<noteq> 2 * int k
                  then ts ! (?n - 1 - k) else replicate ?n JNull ! k)" by blast
    with in_range k show "r' ! k = (if int ?n - 1 \<noteq> 2 * int k then ts ! (?n - 1 - k) else JNull)"
      by simp
  qed
  have "r' = (if even ?n then rev ts else (rev ts)[?n div 2 := JNull])"
  proof (rule nth_equalityI)
    show "length r' = length (if even ?n then rev ts else (rev ts)[?n div 2 := JNull])"
      using len by simp
  next
    fix k assume "k < length r'"
    then have k: "k < ?n" using len by simp
    show "r' ! k = (if even ?n then rev ts else (rev ts)[?n div 2 := JNull]) ! k"
    proof (cases "even ?n")
      case True
      then have "int ?n - 1 \<noteq> 2 * int k" by (rule middle_even)
      with nth k True show ?thesis by (simp add: rev_nth)
    next
      case False
      show ?thesis
      proof (cases "k = ?n div 2")
        case True
        with False have "int ?n - 1 = 2 * int k" by (simp add: middle_odd)
        with nth k True False show ?thesis by simp
      next
        case ne: False
        with False have "int ?n - 1 \<noteq> 2 * int k" by (simp add: middle_odd)
        with nth k ne False show ?thesis by (simp add: rev_nth)
      qed
    qed
  qed
  with run show ?thesis by simp
qed

end
